theory Spec2Isabelle
  imports Main
begin

section \<open>Data model of \<^verbatim>\<open>src/agent.ts\<close>\<close>

text \<open>
  The research loop of \<^verbatim>\<open>getResponse\<close> talks to six collaborators: the model
  (\<^verbatim>\<open>generateContent\<close>), the answer evaluator, the query deduplicator, the query
  rewriter, the search provider and the page reader. A JavaScript exception (a rejected
  promise) is the value \<open>Inl (Thrown msg)\<close> of a result type \<open>error + 'a\<close>.
\<close>

datatype error = Thrown string

record reference =
  title :: string
  url :: string

text \<open>
  The parsed model response. The response schema requires \<^verbatim>\<open>action\<close> and
  \<^verbatim>\<open>reasoning\<close>; every other key may be missing (\<open>None\<close> is \<^verbatim>\<open>undefined\<close>).
\<close>

record action =
  action :: string
  reasoning :: string
  searchQuery :: "string option"
  URLTargets :: "string list option"
  answer :: "string option"
  references :: "reference list option"
  questionsToAnswer :: "string list option"

record search_hit =
  hit_title :: string
  hit_url :: string
  hit_description :: string

record search_result =
  query :: string
  results :: "search_hit list"

text \<open>The page reader's response; \<open>usage_tokens\<close> is \<^verbatim>\<open>data.usage.tokens\<close>.\<close>

record read_response =
  content :: string
  usage_tokens :: int

record url_result =
  target_url :: string
  read_result :: read_response

datatype step_result = SearchResults "search_result list" | UrlResults "url_result list"

text \<open>
  An element of \<^verbatim>\<open>context\<close> and of \<^verbatim>\<open>badContext\<close>:
  \<^verbatim>\<open>{step, question: currentQuestion, ...action, result}\<close>, where \<^verbatim>\<open>result\<close> is present for
  search and deep-dive entries only.
\<close>

record entry =
  entry_step :: nat
  entry_question :: string
  entry_action :: action
  entry_result :: "step_result option"

subsection \<open>The response schema\<close>

record action_schema =
  enum_values :: "string list"
  action_description :: string

record questions_schema =
  items_description :: string
  questions_description :: string
  maxItems :: nat

record references_schema =
  title_description :: string
  url_description :: string
  item_required :: "string list"
  references_description :: string

text \<open>
  \<^verbatim>\<open>type ResponseSchema\<close>: the \<^verbatim>\<open>type:\<close> tags are fixed by the TypeScript type, so each
  property is represented by its descriptions; \<^verbatim>\<open>questionsToAnswer?\<close> is optional.
\<close>

record ResponseSchema =
  schema_action :: action_schema
  schema_questionsToAnswer :: "questions_schema option"
  schema_searchQuery :: string
  schema_URLTargets :: string
  schema_answer :: string
  schema_references :: references_schema
  schema_reasoning :: string
  required :: "string list"

definition getSchema :: "bool \<Rightarrow> ResponseSchema" where
  "getSchema allowReflect =
    \<lparr>schema_action =
       \<lparr>enum_values = (if allowReflect then [''search'', ''deep dive'', ''answer'', ''reflect'']
                        else [''search'', ''deep dive'', ''answer'']),
        action_description = ''Must match exactly one action type''\<rparr>,
     schema_questionsToAnswer =
       (if allowReflect then
          Some \<lparr>items_description = ''each question must be a single line, concise and clear. not composite or compound, less than 20 words.'',
                questions_description = ''Only required when choosing 'reflect' action, list of most important questions to answer to fill the knowledge gaps.'',
                maxItems = 2\<rparr>
        else None),
     schema_searchQuery = ''Only required when choosing 'search' action, must be a short, keyword-based query that BM25, tf-idf based search engines can understand.'',
     schema_URLTargets = ''Only required when choosing 'deep dive' action, must be an array of URLs'',
     schema_answer = ''Only required when choosing 'answer' action, must be the final answer in natural language'',
     schema_references =
       \<lparr>title_description = ''Title of the document; must be directly from the context'',
        url_description = ''URL of the document; must be directly from the context'',
        item_required = [''title'', ''url''],
        references_description = ''Only required when choosing 'answer' action, must be an array of references''\<rparr>,
     schema_reasoning = ''Explain why choose this action?'',
     required = [''action'', ''reasoning'']\<rparr>"

subsection \<open>The prompt\<close>

definition nl :: string where
  "nl = [CHR 0x0A]"

text \<open>\<^verbatim>\<open>Array.prototype.join\<close> on strings.\<close>

fun join :: "string \<Rightarrow> string list \<Rightarrow> string" where
  "join sep [] = []"
| "join sep [x] = x"
| "join sep (x # y # ys) = x @ sep @ join sep (y # ys)"

text \<open>
  The three parts of the prompt. \<open>stringify\<close> stands for
  \<^verbatim>\<open>JSON.stringify(\<cdot>, null, 2)\<close>; an optional parameter that the caller leaves out is
  \<open>None\<close>, and \<^verbatim>\<open>x?.length\<close> is falsy for \<open>None\<close> and for the empty list.
\<close>

definition badContextIntro :: "(entry list \<Rightarrow> string) \<Rightarrow> entry list option \<Rightarrow> string" where
  "badContextIntro stringify badContext =
    (case badContext of
       None \<Rightarrow> []
     | Some bad \<Rightarrow>
         if bad = [] then []
         else join nl
           [''Your last unsuccessful answer contains these previous actions and knowledge:'',
            ''    '' @ stringify bad,
            ''    '',
            ''    Learn to avoid these mistakes and think of a new approach, from a different angle, e.g. search for different keywords, read different URLs, or ask different questions.'',
            ''    ''])"

definition contextIntro :: "(entry list \<Rightarrow> string) \<Rightarrow> entry list option \<Rightarrow> string" where
  "contextIntro stringify ctx =
    (case ctx of
       None \<Rightarrow> []
     | Some c \<Rightarrow>
         if c = [] then []
         else join nl
           [''Your current context contains these previous actions and knowledge:'',
            ''    '' @ stringify c,
            ''    ''])"

definition existingQuestions :: "string list option \<Rightarrow> string" where
  "existingQuestions allQuestions =
    (case allQuestions of
       None \<Rightarrow> []
     | Some qs \<Rightarrow>
         if qs = [] then []
         else ''Existing questions you have asked, make sure to not repeat them:'' @ nl @ '' '' @ join nl qs)"

definition actionsDescription :: "string \<Rightarrow> string list option \<Rightarrow> bool \<Rightarrow> string" where
  \<open>actionsDescription question allQuestions allowReflect =
    join nl
      [[],
       ''Using your training data and prior lessons learned, answer the following question with absolute certainty:'',
       [],
       question,
       [],
       ''When uncertain or needing additional information, select one of these actions:'',
       [],
       ''**search**:'',
       ''- Query external sources using a public search engine'',
       ''- Focus on solving one specific aspect of the question'',
       ''- Only give keywords search query, not full sentences'',
       [],
       ''**deep dive**:'',
       ''- When you have enough search result and want to deep dive into specific URLs'',
       ''- It allows you access the full content behind specific URLs'',
       [],
       ''**answer**:'',
       ''- Provide final response only when 100% certain'',
       ''- Responses must be definitive (no ambiguity, uncertainty, or disclaimers)'',
       (if allowReflect then ''- If doubts remain, use "reflect" instead'' else [])]
    @ (if allowReflect then
         join nl
           [[],
            [],
            ''**reflect**:'',
            ''- Perform critical analysis through hypothetical scenarios or systematic breakdowns'',
            ''- Identify knowledge gaps and formulate essential clarifying questions'',
            ''- Questions must be:'',
            ''  - Original (not variations of existing questions)'',
            ''  - Focused on single concepts'',
            ''  - Under 20 words'',
            ''  - Non-compound/non-complex'',
            existingQuestions allQuestions,
            ''  '']
       else [])\<close>

definition getPrompt ::
  "(entry list \<Rightarrow> string) \<Rightarrow> string \<Rightarrow> entry list option \<Rightarrow> string list option \<Rightarrow> bool
     \<Rightarrow> entry list option \<Rightarrow> string" where
  "getPrompt stringify question ctx allQuestions allowReflect badContext =
    ''You are an advanced AI research analyst specializing in multi-step reasoning.''
    @ contextIntro stringify ctx
    @ badContextIntro stringify badContext
    @ actionsDescription question allQuestions allowReflect
    @ join nl
        [[],
         [],
         ''Respond exclusively in valid JSON format matching exact JSON schema.'',
         [],
         ''Critical Requirements:'',
         ''- Include ONLY ONE action type'',
         ''- Never add unsupported keys'',
         ''- Exclude all non-JSON text, markdown, or explanations'',
         ''- Maintain strict JSON syntax'']"

section \<open>The controller\<close>

subsection \<open>Collaborators and state\<close>

text \<open>
  Every call to a collaborator is recorded, in order, in a call log. The log is the only
  addition to the variables of \<^verbatim>\<open>getResponse\<close>: it makes "which calls were made, with
  which arguments" a property of the final state.
\<close>

datatype call =
    GenerateContent string ResponseSchema
  | EvaluateAnswer string "string option"
  | DedupQueries "string list" "string list"
  | RewriteQuery string
  | Search string
  | ReadUrl string string

text \<open>The model's response: \<^verbatim>\<open>usageMetadata?.totalTokenCount\<close> and \<^verbatim>\<open>JSON.parse(response.text())\<close>.\<close>

record response =
  totalTokenCount :: "int option"
  parsed :: "error + action"

text \<open>
  The collaborators are parameters of the model. Their first argument is the number of
  calls made so far, so that the same request may be answered differently at different
  times, as a language model or a network does.
\<close>

record env =
  stringify :: "entry list \<Rightarrow> string"
  generateContent :: "nat \<Rightarrow> string \<Rightarrow> ResponseSchema \<Rightarrow> error + response"
  evaluateAnswer :: "nat \<Rightarrow> string \<Rightarrow> string option \<Rightarrow> error + bool"
  dedupQueries :: "nat \<Rightarrow> string list \<Rightarrow> string list \<Rightarrow> error + string list"
  rewriteQuery :: "nat \<Rightarrow> string \<Rightarrow> error + string list"
  search :: "nat \<Rightarrow> string \<Rightarrow> error + search_hit list"
  readUrl :: "nat \<Rightarrow> string \<Rightarrow> string \<Rightarrow> error + read_response"
  jinaToken :: string

text \<open>The local variables of \<^verbatim>\<open>getResponse\<close> (\<open>context_log\<close> is \<^verbatim>\<open>context\<close>), and the call log.\<close>

record state =
  totalTokens :: int
  context_log :: "entry list"
  step :: nat
  gaps :: "string list"
  allQuestions :: "string list"
  allKeywords :: "string list"
  badContext :: "entry list"
  calls :: "call list"

definition initial_state :: "string \<Rightarrow> state" where
  "initial_state question =
    \<lparr>totalTokens = 0, context_log = [], step = 0, gaps = [question],
     allQuestions = [question], allKeywords = [], badContext = [], calls = []\<rparr>"

definition record_call :: "call \<Rightarrow> state \<Rightarrow> state" where
  "record_call c st = st\<lparr>calls := calls st @ [c]\<rparr>"

text \<open>
  One pass of the loop body ends in one of three ways: an exception leaves
  \<^verbatim>\<open>getResponse\<close>, \<^verbatim>\<open>return action\<close> ends it, or the loop goes on.
\<close>

datatype outcome = Throw error state | Return action state | Continue state

fun outcome_state :: "outcome \<Rightarrow> state" where
  "outcome_state (Throw e st) = st"
| "outcome_state (Return a st) = st"
| "outcome_state (Continue st) = st"

subsection \<open>Selection and the model call (lines 242 to 263)\<close>

definition allowReflect :: "state \<Rightarrow> bool" where
  "allowReflect st = (length (gaps st) \<le> 1)"

definition currentQuestion :: "string \<Rightarrow> state \<Rightarrow> string" where
  "currentQuestion question st = (case gaps st of [] \<Rightarrow> question | g # rest \<Rightarrow> g)"

text \<open>Line 244 passes four arguments: the fifth parameter \<^verbatim>\<open>badContext\<close> is left out.\<close>

definition oracle_prompt :: "env \<Rightarrow> string \<Rightarrow> state \<Rightarrow> string" where
  "oracle_prompt env question st =
    getPrompt (stringify env) (currentQuestion question st) (Some (context_log st))
      (Some (allQuestions st)) (allowReflect st) None"

definition oracle_call :: "env \<Rightarrow> string \<Rightarrow> state \<Rightarrow> error + response" where
  "oracle_call env question st =
    generateContent env (length (calls st)) (oracle_prompt env question st)
      (getSchema (allowReflect st))"

subsection \<open>The answer branch (lines 266 to 281)\<close>

definition handle_answer :: "env \<Rightarrow> string \<Rightarrow> string \<Rightarrow> action \<Rightarrow> state \<Rightarrow> outcome" where
  "handle_answer env question cur act st =
    (if action act = ''answer'' then
       (let st1 = st\<lparr>context_log := context_log st @
                    [\<lparr>entry_step = step st, entry_question = cur, entry_action = act,
                      entry_result = None\<rparr>]\<rparr>
        in if cur = question then
             (let st2 = record_call (EvaluateAnswer cur (answer act)) st1
              in case evaluateAnswer env (length (calls st1)) cur (answer act) of
                   Inl e \<Rightarrow> Throw e st2
                 | Inr evaluation \<Rightarrow>
                     if evaluation then Return act st2
                     else Continue (st2\<lparr>badContext := badContext st2 @ context_log st2,
                                        context_log := []\<rparr>))
           else Continue st1)
     else Continue st)"

subsection \<open>The reflect branch (lines 283 to 291)\<close>

definition handle_reflect :: "env \<Rightarrow> string \<Rightarrow> action \<Rightarrow> state \<Rightarrow> outcome" where
  "handle_reflect env question act st =
    (if action act = ''reflect'' then
       (case questionsToAnswer act of
          None \<Rightarrow> Continue st
        | Some qs \<Rightarrow>
            (if allQuestions st = [] then
               Continue (st\<lparr>gaps := gaps st @ qs @ [question],
                             allQuestions := allQuestions st @ qs\<rparr>)
             else
               (let st1 = record_call (DedupQueries qs (allQuestions st)) st
                in case dedupQueries env (length (calls st)) qs (allQuestions st) of
                     Inl e \<Rightarrow> Throw e st1
                   | Inr newGapQuestions \<Rightarrow>
                       Continue (st1\<lparr>gaps := gaps st1 @ newGapQuestions @ [question],
                                      allQuestions := allQuestions st1 @ newGapQuestions\<rparr>))))
     else Continue st)"

subsection \<open>Search and deep dive, inside \<^verbatim>\<open>try\<close> (lines 294 to 340)\<close>

definition minResult :: "search_hit \<Rightarrow> search_hit" where
  "minResult r = \<lparr>hit_title = hit_title r, hit_url = hit_url r, hit_description = hit_description r\<rparr>"

text \<open>
  The \<^verbatim>\<open>for\<close> loop over the queries. A query is added to \<^verbatim>\<open>allKeywords\<close> as soon as its
  search has returned; when a search throws, the loop is left (\<open>None\<close>) and the keywords
  added so far stay.
\<close>

fun search_all :: "env \<Rightarrow> string list \<Rightarrow> search_result list \<Rightarrow> state
    \<Rightarrow> search_result list option \<times> state" where
  "search_all env [] searchResults st = (Some searchResults, st)"
| "search_all env (q # qs) searchResults st =
    (case search env (length (calls st)) q of
       Inl e \<Rightarrow> (None, record_call (Search q) st)
     | Inr rs \<Rightarrow>
         search_all env qs (searchResults @ [\<lparr>query = q, results = map minResult rs\<rparr>])
           ((record_call (Search q) st)\<lparr>allKeywords := allKeywords st @ [q]\<rparr>))"

definition finish_search :: "string \<Rightarrow> action \<Rightarrow> search_result list option \<times> state \<Rightarrow> state" where
  "finish_search cur act r =
    (case r of
       (None, st) \<Rightarrow> st
     | (Some searchResults, st) \<Rightarrow>
         st\<lparr>context_log := context_log st @
              [\<lparr>entry_step = step st, entry_question = cur, entry_action = act,
                entry_result = Some (SearchResults searchResults)\<rparr>]\<rparr>)"

definition handle_search :: "env \<Rightarrow> string \<Rightarrow> action \<Rightarrow> string \<Rightarrow> state \<Rightarrow> state" where
  "handle_search env cur act q st =
    (let st1 = record_call (RewriteQuery q) st
     in case rewriteQuery env (length (calls st)) q of
          Inl e \<Rightarrow> st1
        | Inr keywordsQueries \<Rightarrow>
            if allKeywords st1 = [] then
              finish_search cur act (search_all env keywordsQueries [] st1)
            else
              (let st2 = record_call (DedupQueries keywordsQueries (allKeywords st1)) st1
               in case dedupQueries env (length (calls st1)) keywordsQueries (allKeywords st1) of
                    Inl e \<Rightarrow> st2
                  | Inr deduped \<Rightarrow> finish_search cur act (search_all env deduped [] st2)))"

text \<open>
  \<^verbatim>\<open>URLTargets.map(async url => ...)\<close> starts one read per URL, in order;
  \<^verbatim>\<open>Promise.all\<close> resolves to the list of results when every read resolves and rejects
  when one of them rejects.
\<close>

fun read_all :: "env \<Rightarrow> string list \<Rightarrow> state \<Rightarrow> (error + url_result) list \<times> state" where
  "read_all env [] st = ([], st)"
| "read_all env (u # us) st =
    (let r = (case readUrl env (length (calls st)) u (jinaToken env) of
                Inl e \<Rightarrow> Inl e
              | Inr resp \<Rightarrow> Inr \<lparr>target_url = u, read_result = resp\<rparr>);
         (rs, st') = read_all env us (record_call (ReadUrl u (jinaToken env)) st)
     in (r # rs, st'))"

fun Promise_all :: "(error + 'a) list \<Rightarrow> error + 'a list" where
  "Promise_all [] = Inr []"
| "Promise_all (Inl e # rs) = Inl e"
| "Promise_all (Inr x # rs) = (case Promise_all rs of Inl e \<Rightarrow> Inl e | Inr xs \<Rightarrow> Inr (x # xs))"

definition handle_deep_dive :: "env \<Rightarrow> string \<Rightarrow> action \<Rightarrow> string list \<Rightarrow> state \<Rightarrow> state" where
  "handle_deep_dive env cur act urls st =
    (case read_all env urls st of
       (rs, st1) \<Rightarrow>
         (case Promise_all rs of
            Inl e \<Rightarrow> st1
          | Inr urlResults \<Rightarrow>
              st1\<lparr>context_log := context_log st1 @
                     [\<lparr>entry_step = step st1, entry_question = cur, entry_action = act,
                       entry_result = Some (UrlResults urlResults)\<rparr>],
                   totalTokens := totalTokens st1
                     + sum_list (map (\<lambda>r. usage_tokens (read_result r)) urlResults)\<rparr>))"

text \<open>
  The \<^verbatim>\<open>try\<close> block: \<^verbatim>\<open>action.searchQuery\<close> is truthy for a non-empty string,
  \<^verbatim>\<open>action.URLTargets?.length\<close> for a non-empty array. The \<^verbatim>\<open>catch\<close> only logs, so the
  block never throws.
\<close>

definition handle_tools :: "env \<Rightarrow> string \<Rightarrow> action \<Rightarrow> state \<Rightarrow> state" where
  "handle_tools env cur act st =
    (if action act = ''search'' \<and> searchQuery act \<noteq> None \<and> searchQuery act \<noteq> Some [] then
       handle_search env cur act (the (searchQuery act)) st
     else if action act = ''deep dive'' \<and> URLTargets act \<noteq> None \<and> URLTargets act \<noteq> Some [] then
       handle_deep_dive env cur act (the (URLTargets act)) st
     else st)"

subsection \<open>The loop (lines 236 to 343)\<close>

definition dispatch :: "env \<Rightarrow> string \<Rightarrow> string \<Rightarrow> action \<Rightarrow> state \<Rightarrow> outcome" where
  "dispatch env question cur act st =
    (case handle_answer env question cur act st of
       Continue st1 \<Rightarrow>
         (case handle_reflect env question act st1 of
            Continue st2 \<Rightarrow> Continue (handle_tools env cur act st2)
          | Throw e st2 \<Rightarrow> Throw e st2
          | Return a st2 \<Rightarrow> Return a st2)
     | Throw e st1 \<Rightarrow> Throw e st1
     | Return a st1 \<Rightarrow> Return a st1)"

text \<open>
  The loop body. \<^verbatim>\<open>sleep\<close> only waits and \<^verbatim>\<open>storeContext\<close> only writes files (and
  catches its own errors); neither touches the variables, and they are left out.
\<close>

definition loop_body :: "env \<Rightarrow> string \<Rightarrow> state \<Rightarrow> outcome" where
  "loop_body env question st0 =
    (let st = st0\<lparr>step := Suc (step st0)\<rparr>;
         cur = currentQuestion question st;
         prompt = oracle_prompt env question st;
         schema = getSchema (allowReflect st);
         st1 = record_call (GenerateContent prompt schema) (st\<lparr>gaps := tl (gaps st)\<rparr>)
     in case oracle_call env question st of
          Inl e \<Rightarrow> Throw e st1
        | Inr resp \<Rightarrow>
            (let st2 = st1\<lparr>totalTokens := totalTokens st1 +
                          (case totalTokenCount resp of None \<Rightarrow> 0 | Some n \<Rightarrow> n)\<rparr>
             in case parsed resp of
                  Inl e \<Rightarrow> Throw e st2
                | Inr act \<Rightarrow> dispatch env question cur act st2))"

text \<open>
  What \<^verbatim>\<open>getResponse\<close> hands to its caller: a rejection, or a value, which is the
  accepted action or \<^verbatim>\<open>undefined\<close> (\<open>None\<close>) when the \<^verbatim>\<open>while\<close> loop is left.
\<close>

datatype completion = Rejected error | Resolved "action option"

text \<open>
  The \<^verbatim>\<open>while\<close> loop. Nothing bounds the number of passes (a model that reports no
  token usage keeps it running), so the loop is a partial function: \<open>None\<close> is a run
  that never returns.
\<close>

partial_function (option) getResponse_loop ::
    "env \<Rightarrow> string \<Rightarrow> int \<Rightarrow> state \<Rightarrow> (completion \<times> state) option" where
  "getResponse_loop env question tokenBudget st =
    (if totalTokens st < tokenBudget then
       (case loop_body env question st of
          Throw e st' \<Rightarrow> Some (Rejected e, st')
        | Return a st' \<Rightarrow> Some (Resolved (Some a), st')
        | Continue st' \<Rightarrow> getResponse_loop env question tokenBudget st')
     else Some (Resolved None, st))"

declare getResponse_loop.simps [code]

text \<open>\<^verbatim>\<open>getResponse(question, tokenBudget = 30000000)\<close>.\<close>

definition getResponse :: "env \<Rightarrow> string \<Rightarrow> int option \<Rightarrow> (completion \<times> state) option" where
  "getResponse env question tokenBudget =
    getResponse_loop env question (case tokenBudget of None \<Rightarrow> 30000000 | Some b \<Rightarrow> b)
      (initial_state question)"

text \<open>
  The states at the head of the loop: \<open>passes env question tokenBudget n st\<close> is the state
  after \<open>n\<close> more passes of the loop body from \<open>st\<close>, when the loop is still running
  then (no pass has returned or thrown, and the budget test has let every pass start).
\<close>

fun passes :: "env \<Rightarrow> string \<Rightarrow> int \<Rightarrow> nat \<Rightarrow> state \<Rightarrow> state option" where
  "passes env question tokenBudget 0 st = Some st"
| "passes env question tokenBudget (Suc n) st =
    (if totalTokens st < tokenBudget then
       (case loop_body env question st of
          Continue st' \<Rightarrow> passes env question tokenBudget n st'
        | Throw e st' \<Rightarrow> None
        | Return a st' \<Rightarrow> None)
     else None)"

section \<open>Concrete collaborators\<close>

text \<open>
  Runs of the controller need collaborators. \<open>scripted_env\<close> builds them from a script:
  the action the model returns at each time, the evaluator's verdict (or failure), and the
  page reader. The model reports 10 tokens per call, the deduplicator drops the candidates
  that are already known, the rewriter keeps the query and the search finds nothing.
\<close>

definition scripted_env ::
    "(nat \<Rightarrow> action) \<Rightarrow> error + bool \<Rightarrow> (string \<Rightarrow> error + read_response) \<Rightarrow> env" where
  "scripted_env decide verdict reader =
    \<lparr>stringify = (\<lambda>es. replicate (length es) (CHR ''#'')),
     generateContent = (\<lambda>n prompt schema. Inr \<lparr>totalTokenCount = Some 10, parsed = Inr (decide n)\<rparr>),
     evaluateAnswer = (\<lambda>n q a. verdict),
     dedupQueries = (\<lambda>n candidates known. Inr (filter (\<lambda>q. q \<notin> set known) candidates)),
     rewriteQuery = (\<lambda>n q. Inr [q]),
     search = (\<lambda>n q. Inr []),
     readUrl = (\<lambda>n u token. reader u),
     jinaToken = ''jina_test''\<rparr>"

definition no_reader :: "string \<Rightarrow> error + read_response" where
  "no_reader u = Inl (Thrown ''no page reader'')"

text \<open>An answer \<^verbatim>\<open>{action: "answer", answer: "2", references: []}\<close>.\<close>

definition unreferenced_answer :: action where
  "unreferenced_answer =
    \<lparr>action = ''answer'', reasoning = ''arithmetic'', searchQuery = None, URLTargets = None,
     answer = Some ''2'', references = Some [], questionsToAnswer = None\<rparr>"

text \<open>A reflect action with two questions.\<close>

definition two_questions :: action where
  "two_questions =
    \<lparr>action = ''reflect'', reasoning = ''gaps'', searchQuery = None, URLTargets = None,
     answer = None, references = None, questionsToAnswer = Some [''Q1'', ''Q2'']\<rparr>"

text \<open>A deep dive over two URLs, and a reader that reaches the first URL only.\<close>

definition two_urls :: action where
  "two_urls =
    \<lparr>action = ''deep dive'', reasoning = ''read'', searchQuery = None,
     URLTargets = Some [''http://a.example'', ''http://b.example''],
     answer = None, references = None, questionsToAnswer = None\<rparr>"

definition first_url_only :: "string \<Rightarrow> error + read_response" where
  "first_url_only u =
    (if u = ''http://a.example'' then Inr \<lparr>content = ''page a'', usage_tokens = 7\<rparr>
     else Inl (Thrown ''fetch failed''))"

section \<open>Frame lemmas: what each part of the loop body leaves alone\<close>

lemma record_call_simps [simp]:
  "calls (record_call c st) = calls st @ [c]"
  "gaps (record_call c st) = gaps st"
  "context_log (record_call c st) = context_log st"
  "badContext (record_call c st) = badContext st"
  "allQuestions (record_call c st) = allQuestions st"
  "allKeywords (record_call c st) = allKeywords st"
  "totalTokens (record_call c st) = totalTokens st"
  "step (record_call c st) = step st"
  by (simp_all add: record_call_def)

lemma search_all_frame:
  "search_all env qs acc st = (r, st') \<Longrightarrow>
     gaps st' = gaps st \<and> context_log st' = context_log st \<and> badContext st' = badContext st
     \<and> allQuestions st' = allQuestions st \<and> totalTokens st' = totalTokens st \<and> step st' = step st
     \<and> (\<exists>cs. calls st' = calls st @ cs)"
proof (induction qs arbitrary: acc st)
  case Nil
  then show ?case by simp
next
  case (Cons q qs)
  show ?case
  proof (cases "search env (length (calls st)) q")
    case (Inl e)
    with Cons.prems show ?thesis by auto
  next
    case (Inr rs)
    with Cons.prems Cons.IH [of "acc @ [\<lparr>query = q, results = map minResult rs\<rparr>]"
        "(record_call (Search q) st)\<lparr>allKeywords := allKeywords st @ [q]\<rparr>" ]
    show ?thesis by auto
  qed
qed

lemma read_all_state:
  "snd (read_all env us st) = st\<lparr>calls := calls st @ map (\<lambda>u. ReadUrl u (jinaToken env)) us\<rparr>"
  by (induction us arbitrary: st) (simp_all add: record_call_def split_def)

lemma read_all_length: "length (fst (read_all env us st)) = length us"
  by (induction us arbitrary: st) (simp_all add: split_def Let_def)

lemma read_all_nth:
  "i < length us \<Longrightarrow>
   fst (read_all env us st) ! i =
     (case readUrl env (length (calls st) + i) (us ! i) (jinaToken env) of
        Inl e \<Rightarrow> Inl e
      | Inr resp \<Rightarrow> Inr \<lparr>target_url = us ! i, read_result = resp\<rparr>)"
proof (induction us arbitrary: i st)
  case Nil
  then show ?case by simp
next
  case (Cons u us)
  show ?case
  proof (cases i)
    case 0
    then show ?thesis by (simp add: split_def Let_def split: sum.splits)
  next
    case (Suc j)
    with Cons.prems have "j < length us" by simp
    from Cons.IH [OF this, of "record_call (ReadUrl u (jinaToken env)) st"] Suc
    show ?thesis by (simp add: split_def Let_def split: sum.splits)
  qed
qed

lemma Promise_all_Inl: "Inl e \<in> set rs \<Longrightarrow> \<exists>e'. Promise_all rs = Inl e'"
  by (induction rs rule: Promise_all.induct) (auto split: sum.splits)

lemma selection_ignores_step [simp]:
  "allowReflect (st\<lparr>step := n\<rparr>) = allowReflect st"
  "currentQuestion question (st\<lparr>step := n\<rparr>) = currentQuestion question st"
  "oracle_prompt env question (st\<lparr>step := n\<rparr>) = oracle_prompt env question st"
  "oracle_call env question (st\<lparr>step := n\<rparr>) = oracle_call env question st"
  by (simp_all add: allowReflect_def currentQuestion_def oracle_prompt_def oracle_call_def)

lemma handle_answer_frame:
  "gaps (outcome_state (handle_answer env question cur act st)) = gaps st"
  "allQuestions (outcome_state (handle_answer env question cur act st)) = allQuestions st"
  "totalTokens (outcome_state (handle_answer env question cur act st)) = totalTokens st"
  "step (outcome_state (handle_answer env question cur act st)) = step st"
  "\<exists>cs. calls (outcome_state (handle_answer env question cur act st)) = calls st @ cs"
  by (simp_all add: handle_answer_def Let_def split: sum.splits)

lemma handle_answer_other:
  "action act \<noteq> ''answer'' \<Longrightarrow> handle_answer env question cur act st = Continue st"
  by (simp add: handle_answer_def)

lemma handle_reflect_frame:
  "context_log (outcome_state (handle_reflect env question act st)) = context_log st"
  "badContext (outcome_state (handle_reflect env question act st)) = badContext st"
  "totalTokens (outcome_state (handle_reflect env question act st)) = totalTokens st"
  "step (outcome_state (handle_reflect env question act st)) = step st"
  "\<exists>cs. calls (outcome_state (handle_reflect env question act st)) = calls st @ cs"
  by (simp_all add: handle_reflect_def Let_def split: sum.splits option.splits)

lemma handle_reflect_gaps:
  "\<exists>xs. gaps (outcome_state (handle_reflect env question act st)) = gaps st @ xs
     \<and> (xs = [] \<or> last xs = question)"
  by (simp add: handle_reflect_def Let_def split: sum.splits option.splits)

lemma finish_search_frame:
  "gaps (finish_search cur act (r, st)) = gaps st"
  "badContext (finish_search cur act (r, st)) = badContext st"
  "allQuestions (finish_search cur act (r, st)) = allQuestions st"
  "totalTokens (finish_search cur act (r, st)) = totalTokens st"
  "step (finish_search cur act (r, st)) = step st"
  "calls (finish_search cur act (r, st)) = calls st"
  by (simp_all add: finish_search_def split: option.splits)

lemma handle_search_frame:
  "gaps (handle_search env cur act q st) = gaps st"
  "badContext (handle_search env cur act q st) = badContext st"
  "allQuestions (handle_search env cur act q st) = allQuestions st"
  "step (handle_search env cur act q st) = step st"
  "\<exists>cs. calls (handle_search env cur act q st) = calls st @ cs"
proof -
  have frame: "gaps (finish_search cur act (search_all env qs [] s)) = gaps s
      \<and> badContext (finish_search cur act (search_all env qs [] s)) = badContext s
      \<and> allQuestions (finish_search cur act (search_all env qs [] s)) = allQuestions s
      \<and> step (finish_search cur act (search_all env qs [] s)) = step s
      \<and> (\<exists>cs. calls (finish_search cur act (search_all env qs [] s)) = calls s @ cs)" for qs s
  proof (cases "search_all env qs [] s")
    case (Pair r s')
    from search_all_frame [OF Pair] show ?thesis
      by (simp add: Pair finish_search_frame)
  qed
  show "gaps (handle_search env cur act q st) = gaps st"
    by (simp add: handle_search_def Let_def frame split: sum.splits)
  show "badContext (handle_search env cur act q st) = badContext st"
    by (simp add: handle_search_def Let_def frame split: sum.splits)
  show "allQuestions (handle_search env cur act q st) = allQuestions st"
    by (simp add: handle_search_def Let_def frame split: sum.splits)
  show "step (handle_search env cur act q st) = step st"
    by (simp add: handle_search_def Let_def frame split: sum.splits)
  show "\<exists>cs. calls (handle_search env cur act q st) = calls st @ cs"
  proof (cases "rewriteQuery env (length (calls st)) q")
    case (Inl e)
    then show ?thesis by (simp add: handle_search_def)
  next
    case (Inr kq)
    show ?thesis
    proof (cases "allKeywords st = []")
      case True
      from frame [of kq "record_call (RewriteQuery q) st"] True Inr
      show ?thesis by (auto simp: handle_search_def)
    next
      case False
      show ?thesis
      proof (cases "dedupQueries env (Suc (length (calls st))) kq (allKeywords st)")
        case (Inl e)
        with False Inr show ?thesis by (simp add: handle_search_def)
      next
        case (Inr d)
        from frame [of d "record_call (DedupQueries kq (allKeywords st)) (record_call (RewriteQuery q) st)"]
          False Inr \<open>rewriteQuery env (length (calls st)) q = Inr kq\<close>
        show ?thesis by (auto simp: handle_search_def)
      qed
    qed
  qed
qed

lemma handle_deep_dive_frame:
  "gaps (handle_deep_dive env cur act urls st) = gaps st"
  "badContext (handle_deep_dive env cur act urls st) = badContext st"
  "allQuestions (handle_deep_dive env cur act urls st) = allQuestions st"
  "step (handle_deep_dive env cur act urls st) = step st"
  "calls (handle_deep_dive env cur act urls st)
     = calls st @ map (\<lambda>u. ReadUrl u (jinaToken env)) urls"
  using read_all_state [of env urls st]
  by (cases "read_all env urls st"; simp add: handle_deep_dive_def split: sum.splits)+

lemma handle_tools_frame:
  "gaps (handle_tools env cur act st) = gaps st"
  "badContext (handle_tools env cur act st) = badContext st"
  "allQuestions (handle_tools env cur act st) = allQuestions st"
  "step (handle_tools env cur act st) = step st"
  "\<exists>cs. calls (handle_tools env cur act st) = calls st @ cs"
  by (simp_all add: handle_tools_def handle_search_frame handle_deep_dive_frame)

lemma handle_tools_other:
  "action act \<noteq> ''search'' \<Longrightarrow> action act \<noteq> ''deep dive'' \<Longrightarrow> handle_tools env cur act st = st"
  by (simp add: handle_tools_def)

subsection \<open>The loop body as a whole\<close>

lemma dispatch_gaps:
  "\<exists>xs. gaps (outcome_state (dispatch env question cur act st)) = gaps st @ xs
     \<and> (xs = [] \<or> last xs = question)"
proof (cases "handle_answer env question cur act st")
  case (Throw e st1)
  with handle_answer_frame(1) [of env question cur act st] show ?thesis
    by (simp add: dispatch_def)
next
  case (Return a st1)
  with handle_answer_frame(1) [of env question cur act st] show ?thesis
    by (simp add: dispatch_def)
next
  case (Continue st1)
  with handle_answer_frame(1) [of env question cur act st]
  have g1: "gaps st1 = gaps st" by simp
  from handle_reflect_gaps [of env question act st1] obtain xs
    where xs: "gaps (outcome_state (handle_reflect env question act st1)) = gaps st1 @ xs"
      "xs = [] \<or> last xs = question" by blast
  show ?thesis
  proof (cases "handle_reflect env question act st1")
    case (Continue st2)
    with xs g1 \<open>handle_answer env question cur act st = Continue st1\<close> show ?thesis
      by (simp add: dispatch_def handle_tools_frame)
  qed (use xs g1 \<open>handle_answer env question cur act st = Continue st1\<close> in
        \<open>simp_all add: dispatch_def\<close>)
qed

lemma dispatch_calls:
  "\<exists>cs. calls (outcome_state (dispatch env question cur act st)) = calls st @ cs"
proof (cases "handle_answer env question cur act st")
  case (Throw e st1)
  with handle_answer_frame(5) [of env question cur act st] show ?thesis
    by (simp add: dispatch_def)
next
  case (Return a st1)
  with handle_answer_frame(5) [of env question cur act st] show ?thesis
    by (simp add: dispatch_def)
next
  case (Continue st1)
  with handle_answer_frame(5) [of env question cur act st] obtain cs1
    where c1: "calls st1 = calls st @ cs1" by auto
  from handle_reflect_frame(5) [of env question act st1] obtain cs2
    where c2: "calls (outcome_state (handle_reflect env question act st1)) = calls st1 @ cs2"
    by blast
  show ?thesis
  proof (cases "handle_reflect env question act st1")
    case (Continue st2)
    from handle_tools_frame(5) [of env cur act st2] obtain cs3
      where "calls (handle_tools env cur act st2) = calls st2 @ cs3" by blast
    with c1 c2 Continue \<open>handle_answer env question cur act st = Continue st1\<close> show ?thesis
      by (simp add: dispatch_def)
  qed (use c1 c2 \<open>handle_answer env question cur act st = Continue st1\<close> in
        \<open>simp_all add: dispatch_def\<close>)
qed

lemma loop_body_decided:
  "oracle_call env question st = Inr resp \<Longrightarrow> parsed resp = Inr act \<Longrightarrow>
   loop_body env question st =
     dispatch env question (currentQuestion question st) act
       (st\<lparr>step := Suc (step st), gaps := tl (gaps st),
           calls := calls st @ [GenerateContent (oracle_prompt env question st)
                                  (getSchema (allowReflect st))],
           totalTokens := totalTokens st
             + (case totalTokenCount resp of None \<Rightarrow> 0 | Some n \<Rightarrow> n)\<rparr>)"
  by (simp add: loop_body_def Let_def record_call_def)

lemma loop_body_gaps:
  "\<exists>xs. gaps (outcome_state (loop_body env question st)) = tl (gaps st) @ xs
     \<and> (xs = [] \<or> last xs = question)"
proof (cases "oracle_call env question st")
  case (Inl e)
  then show ?thesis by (simp add: loop_body_def)
next
  case (Inr resp)
  show ?thesis
  proof (cases "parsed resp")
    case (Inl e)
    with Inr show ?thesis by (simp add: loop_body_def Let_def)
  next
    case act: (Inr act)
    define st2 where "st2 = st\<lparr>step := Suc (step st), gaps := tl (gaps st),
           calls := calls st @ [GenerateContent (oracle_prompt env question st)
                                  (getSchema (allowReflect st))],
           totalTokens := totalTokens st
             + (case totalTokenCount resp of None \<Rightarrow> 0 | Some n \<Rightarrow> n)\<rparr>"
    have "loop_body env question st = dispatch env question (currentQuestion question st) act st2"
      unfolding st2_def by (rule loop_body_decided [OF Inr act])
    moreover have "gaps st2 = tl (gaps st)" by (simp add: st2_def)
    ultimately show ?thesis
      using dispatch_gaps [of env question "currentQuestion question st" act st2] by simp
  qed
qed

lemma loop_body_calls:
  "\<exists>rest. calls (outcome_state (loop_body env question st))
     = calls st @ GenerateContent (oracle_prompt env question st) (getSchema (allowReflect st)) # rest"
proof (cases "oracle_call env question st")
  case (Inl e)
  then show ?thesis by (simp add: loop_body_def)
next
  case (Inr resp)
  show ?thesis
  proof (cases "parsed resp")
    case (Inl e)
    with Inr show ?thesis by (simp add: loop_body_def Let_def)
  next
    case act: (Inr act)
    define st2 where "st2 = st\<lparr>step := Suc (step st), gaps := tl (gaps st),
           calls := calls st @ [GenerateContent (oracle_prompt env question st)
                                  (getSchema (allowReflect st))],
           totalTokens := totalTokens st
             + (case totalTokenCount resp of None \<Rightarrow> 0 | Some n \<Rightarrow> n)\<rparr>"
    have "loop_body env question st = dispatch env question (currentQuestion question st) act st2"
      unfolding st2_def by (rule loop_body_decided [OF Inr act])
    moreover have "calls st2 = calls st @ [GenerateContent (oracle_prompt env question st)
                                  (getSchema (allowReflect st))]" by (simp add: st2_def)
    ultimately show ?thesis
      using dispatch_calls [of env question "currentQuestion question st" act st2] by simp
  qed
qed

subsection \<open>The states of a run\<close>

lemma passes_loop:
  "passes env question tokenBudget n st0 = Some st \<Longrightarrow>
   getResponse_loop env question tokenBudget st0 = getResponse_loop env question tokenBudget st"
proof (induction n arbitrary: st0)
  case 0
  then show ?case by simp
next
  case (Suc n)
  from Suc.prems have running: "totalTokens st0 < tokenBudget"
    by (simp split: if_splits)
  with Suc.prems obtain st1 where body: "loop_body env question st0 = Continue st1"
    and rest: "passes env question tokenBudget n st1 = Some st"
    by (auto split: outcome.splits)
  have "getResponse_loop env question tokenBudget st0 = getResponse_loop env question tokenBudget st1"
    by (subst getResponse_loop.simps) (simp add: running body)
  with Suc.IH [OF rest] show ?case by simp
qed

lemma passes_invariant:
  assumes "passes env question tokenBudget n st0 = Some st"
    and "P st0"
    and "\<And>s s'. P s \<Longrightarrow> loop_body env question s = Continue s' \<Longrightarrow> P s'"
  shows "P st"
  using assms(1,2)
proof (induction n arbitrary: st0)
  case 0
  then show ?case by simp
next
  case (Suc n)
  from Suc.prems(1) obtain st1 where body: "loop_body env question st0 = Continue st1"
    and rest: "passes env question tokenBudget n st1 = Some st"
    by (auto split: outcome.splits if_splits)
  from assms(3) [OF Suc.prems(2) body] have "P st1" .
  with Suc.IH [OF rest] show ?case .
qed

lemma gaps_end_with_question:
  assumes "passes env question tokenBudget n (initial_state question) = Some st"
  shows "gaps st = [] \<or> last (gaps st) = question"
proof (rule passes_invariant [OF assms])
  show "gaps (initial_state question) = [] \<or> last (gaps (initial_state question)) = question"
    by (simp add: initial_state_def)
next
  fix s s'
  assume inv: "gaps s = [] \<or> last (gaps s) = question"
    and body: "loop_body env question s = Continue s'"
  from loop_body_gaps [of env question s] body obtain xs
    where xs: "gaps s' = tl (gaps s) @ xs" "xs = [] \<or> last xs = question" by auto
  show "gaps s' = [] \<or> last (gaps s') = question"
  proof (cases "xs = []")
    case True
    with xs inv show ?thesis by (cases "gaps s") (auto split: if_splits)
  next
    case False
    with xs show ?thesis by simp
  qed
qed


lemma dispatch_other:
  assumes "action act \<noteq> ''answer''" and "action act \<noteq> ''search''"
    and "action act \<noteq> ''deep dive''"
  shows "dispatch env question cur act st = handle_reflect env question act st"
  using assms
  by (cases "handle_reflect env question act st")
     (simp_all add: dispatch_def handle_answer_other handle_tools_other)


lemma handle_reflect_allQuestions:
  "\<exists>xs. allQuestions (outcome_state (handle_reflect env question act st)) = allQuestions st @ xs"
  by (simp add: handle_reflect_def Let_def split: sum.splits option.splits)

lemma dispatch_allQuestions:
  "\<exists>xs. allQuestions (outcome_state (dispatch env question cur act st)) = allQuestions st @ xs"
proof (cases "handle_answer env question cur act st")
  case (Throw e st1)
  with handle_answer_frame(2) [of env question cur act st] show ?thesis
    by (simp add: dispatch_def)
next
  case (Return a st1)
  with handle_answer_frame(2) [of env question cur act st] show ?thesis
    by (simp add: dispatch_def)
next
  case (Continue st1)
  with handle_answer_frame(2) [of env question cur act st]
  have q1: "allQuestions st1 = allQuestions st" by simp
  from handle_reflect_allQuestions [of env question act st1] obtain xs
    where xs: "allQuestions (outcome_state (handle_reflect env question act st1))
      = allQuestions st1 @ xs" by blast
  show ?thesis
  proof (cases "handle_reflect env question act st1")
    case (Continue st2)
    with xs q1 \<open>handle_answer env question cur act st = Continue st1\<close> show ?thesis
      by (simp add: dispatch_def handle_tools_frame)
  qed (use xs q1 \<open>handle_answer env question cur act st = Continue st1\<close> in
        \<open>simp_all add: dispatch_def\<close>)
qed

lemma loop_body_allQuestions:
  "\<exists>xs. allQuestions (outcome_state (loop_body env question st)) = allQuestions st @ xs"
proof (cases "oracle_call env question st")
  case (Inl e)
  then show ?thesis by (simp add: loop_body_def)
next
  case (Inr resp)
  show ?thesis
  proof (cases "parsed resp")
    case (Inl e)
    with Inr show ?thesis by (simp add: loop_body_def Let_def)
  next
    case act: (Inr act)
    define st2 where "st2 = st\<lparr>step := Suc (step st), gaps := tl (gaps st),
           calls := calls st @ [GenerateContent (oracle_prompt env question st)
                                  (getSchema (allowReflect st))],
           totalTokens := totalTokens st
             + (case totalTokenCount resp of None \<Rightarrow> 0 | Some n \<Rightarrow> n)\<rparr>"
    have "loop_body env question st = dispatch env question (currentQuestion question st) act st2"
      unfolding st2_def by (rule loop_body_decided [OF Inr act])
    moreover have "allQuestions st2 = allQuestions st" by (simp add: st2_def)
    ultimately show ?thesis
      using dispatch_allQuestions [of env question "currentQuestion question st" act st2] by simp
  qed
qed

lemma allQuestions_nonempty:
  assumes "passes env question tokenBudget n (initial_state question) = Some st"
  shows "allQuestions st \<noteq> []"
proof (rule passes_invariant [OF assms])
  show "allQuestions (initial_state question) \<noteq> []"
    by (simp add: initial_state_def)
next
  fix s s'
  assume "allQuestions s \<noteq> []" and "loop_body env question s = Continue s'"
  with loop_body_allQuestions [of env question s] show "allQuestions s' \<noteq> []"
    by auto
qed


lemma dispatch_answer_original:
  assumes "action act = ''answer''"
  shows "dispatch env question question act st =
    (case evaluateAnswer env (length (calls st)) question (answer act) of
       Inl e \<Rightarrow>
         Throw e (st\<lparr>context_log := context_log st @
                      [\<lparr>entry_step = step st, entry_question = question, entry_action = act,
                        entry_result = None\<rparr>],
                    calls := calls st @ [EvaluateAnswer question (answer act)]\<rparr>)
     | Inr evaluation \<Rightarrow>
         if evaluation then
           Return act (st\<lparr>context_log := context_log st @
                      [\<lparr>entry_step = step st, entry_question = question, entry_action = act,
                        entry_result = None\<rparr>],
                    calls := calls st @ [EvaluateAnswer question (answer act)]\<rparr>)
         else
           Continue (st\<lparr>context_log := [],
                       badContext := badContext st @ context_log st @
                         [\<lparr>entry_step = step st, entry_question = question, entry_action = act,
                           entry_result = None\<rparr>],
                       calls := calls st @ [EvaluateAnswer question (answer act)]\<rparr>))"
  using assms
  by (simp add: dispatch_def handle_answer_def handle_reflect_def handle_tools_def
      record_call_def Let_def split: sum.splits)


subsection \<open>Leaving the loop, and the deep dive\<close>

lemma loop_throw:
  "totalTokens st < tokenBudget \<Longrightarrow> loop_body env question st = Throw e st' \<Longrightarrow>
   getResponse_loop env question tokenBudget st = Some (Rejected e, st')"
  by (subst getResponse_loop.simps) simp

lemma loop_return:
  "totalTokens st < tokenBudget \<Longrightarrow> loop_body env question st = Return a st' \<Longrightarrow>
   getResponse_loop env question tokenBudget st = Some (Resolved (Some a), st')"
  by (subst getResponse_loop.simps) simp

lemma dispatch_deep_dive:
  assumes "action act = ''deep dive''" and "URLTargets act = Some urls" and "urls \<noteq> []"
  shows "dispatch env question cur act st = Continue (handle_deep_dive env cur act urls st)"
  using assms
  by (simp add: dispatch_def handle_answer_def handle_reflect_def handle_tools_def)

lemma handle_deep_dive_failure:
  assumes "i < length urls"
    and "readUrl env (length (calls st) + i) (urls ! i) (jinaToken env) = Inl e"
  shows "handle_deep_dive env cur act urls st
     = st\<lparr>calls := calls st @ map (\<lambda>u. ReadUrl u (jinaToken env)) urls\<rparr>"
proof -
  from read_all_nth [OF assms(1), of env st] assms(2)
  have "fst (read_all env urls st) ! i = Inl e" by simp
  moreover from assms(1) have "i < length (fst (read_all env urls st))"
    by (simp add: read_all_length)
  ultimately have "Inl e \<in> set (fst (read_all env urls st))"
    by (metis nth_mem)
  then obtain e' where rejected: "Promise_all (fst (read_all env urls st)) = Inl e'"
    using Promise_all_Inl by blast
  have "handle_deep_dive env cur act urls st = snd (read_all env urls st)"
    using rejected by (cases "read_all env urls st") (simp add: handle_deep_dive_def)
  then show ?thesis
    by (simp add: read_all_state)
qed

subsection \<open>Evaluating the scripted collaborators\<close>

lemma scripted_env_simps [simp]:
  "generateContent (scripted_env decide verdict reader) n prompt schema
     = Inr \<lparr>totalTokenCount = Some 10, parsed = Inr (decide n)\<rparr>"
  "evaluateAnswer (scripted_env decide verdict reader) n q a = verdict"
  "dedupQueries (scripted_env decide verdict reader) n candidates known
     = Inr (filter (\<lambda>q. q \<notin> set known) candidates)"
  "readUrl (scripted_env decide verdict reader) n u token = reader u"
  "jinaToken (scripted_env decide verdict reader) = ''jina_test''"
  by (simp_all add: scripted_env_def)

lemma reflect_pass:
  "loop_body (scripted_env (\<lambda>n. two_questions) verdict reader) ''q'' (initial_state ''q'')
   = Continue
      \<lparr>totalTokens = 10, context_log = [], step = Suc 0, gaps = [''Q1'', ''Q2'', ''q''],
       allQuestions = [''q'', ''Q1'', ''Q2''], allKeywords = [], badContext = [],
       calls = [GenerateContent
                  (oracle_prompt (scripted_env (\<lambda>n. two_questions) verdict reader) ''q''
                     (initial_state ''q''))
                  (getSchema True),
                DedupQueries [''Q1'', ''Q2''] [''q'']]\<rparr>"
proof -
  have call: "oracle_call (scripted_env (\<lambda>n. two_questions) verdict reader) ''q'' (initial_state ''q'')
      = Inr \<lparr>totalTokenCount = Some 10, parsed = Inr two_questions\<rparr>"
    by (simp add: oracle_call_def)
  show ?thesis
    unfolding loop_body_decided [OF call, of two_questions, simplified]
    by (simp add: dispatch_def handle_answer_def handle_reflect_def handle_tools_def
        two_questions_def initial_state_def record_call_def currentQuestion_def
        allowReflect_def)
qed


lemma answer_pass:
  "loop_body (scripted_env (\<lambda>n. unreferenced_answer) verdict reader) ''1+1=''
     (initial_state ''1+1='') =
   dispatch (scripted_env (\<lambda>n. unreferenced_answer) verdict reader) ''1+1='' ''1+1=''
     unreferenced_answer
     \<lparr>totalTokens = 10, context_log = [], step = Suc 0, gaps = [],
      allQuestions = [''1+1=''], allKeywords = [], badContext = [],
      calls = [GenerateContent
                 (oracle_prompt (scripted_env (\<lambda>n. unreferenced_answer) verdict reader) ''1+1=''
                    (initial_state ''1+1=''))
                 (getSchema True)]\<rparr>"
proof -
  have call: "oracle_call (scripted_env (\<lambda>n. unreferenced_answer) verdict reader) ''1+1=''
      (initial_state ''1+1='')
      = Inr \<lparr>totalTokenCount = Some 10, parsed = Inr unreferenced_answer\<rparr>"
    by (simp add: oracle_call_def)
  show ?thesis
    unfolding loop_body_decided [OF call, of unreferenced_answer, simplified]
    by (simp add: initial_state_def currentQuestion_def allowReflect_def)
qed

lemma unreferenced_answer_fields:
  "action unreferenced_answer = ''answer''"
  "answer unreferenced_answer = Some ''2''"
  "references unreferenced_answer = Some []"
  by (simp_all add: unreferenced_answer_def)


lemma two_urls_fields:
  "action two_urls = ''deep dive''"
  "URLTargets two_urls = Some [''http://a.example'', ''http://b.example'']"
  by (simp_all add: two_urls_def)

subsection \<open>The pass does not depend on the model beyond its one request\<close>







section \<open>The claims\<close>

text \<open>
  C1. The specification asks that an answer the evaluator accepts ends the run only when it
  carries references. The code returns the accepted action whatever its references are: for
  the question \<^verbatim>\<open>1+1=\<close>, an answer with an empty reference list that the evaluator
  accepts is the result of the run, after one pass.
\<close>

theorem unreferenced_answer_ends_run:
  "references unreferenced_answer = Some []
   \<and> getResponse (scripted_env (\<lambda>n. unreferenced_answer) (Inr True) no_reader) ''1+1='' None =
     Some (Resolved (Some unreferenced_answer),
       \<lparr>totalTokens = 10,
        context_log = [\<lparr>entry_step = Suc 0, entry_question = ''1+1='',
                         entry_action = unreferenced_answer, entry_result = None\<rparr>],
        step = Suc 0, gaps = [], allQuestions = [''1+1=''], allKeywords = [], badContext = [],
        calls = [GenerateContent
                   (oracle_prompt (scripted_env (\<lambda>n. unreferenced_answer) (Inr True) no_reader)
                      ''1+1='' (initial_state ''1+1=''))
                   (getSchema True),
                 EvaluateAnswer ''1+1='' (Some ''2'')]\<rparr>)"
proof -
  let ?env = "scripted_env (\<lambda>n. unreferenced_answer) (Inr True) no_reader"
  have body: "loop_body ?env ''1+1='' (initial_state ''1+1='') =
     Return unreferenced_answer
       \<lparr>totalTokens = 10,
        context_log = [\<lparr>entry_step = Suc 0, entry_question = ''1+1='',
                         entry_action = unreferenced_answer, entry_result = None\<rparr>],
        step = Suc 0, gaps = [], allQuestions = [''1+1=''], allKeywords = [], badContext = [],
        calls = [GenerateContent (oracle_prompt ?env ''1+1='' (initial_state ''1+1=''))
                   (getSchema True),
                 EvaluateAnswer ''1+1='' (Some ''2'')]\<rparr>"
    unfolding answer_pass dispatch_answer_original [OF unreferenced_answer_fields(1)]
    by (simp add: unreferenced_answer_fields)
  have budget: "totalTokens (initial_state ''1+1='') < 30000000"
    by (simp add: initial_state_def)
  from loop_return [OF budget body] show ?thesis
    by (simp add: getResponse_def unreferenced_answer_fields)
qed

text \<open>
  C2. The specification asks for one final answer-generation call once the budget is used
  up. In the code the \<^verbatim>\<open>while\<close> test is the only budget check and nothing follows the
  loop: when the tokens consumed have reached the budget at the head of the loop, the run
  ends at once with \<^verbatim>\<open>undefined\<close>, in the state it was in, so without any further call.
  With a budget of 0 no collaborator is called at all.
\<close>

theorem exhausted_budget_returns_undefined:
  assumes "tokenBudget \<le> totalTokens st"
  shows "getResponse_loop env question tokenBudget st = Some (Resolved None, st)"
  using assms by (subst getResponse_loop.simps) simp

theorem exhausted_budget_returns_undefined_witness:
  "\<forall>env question. getResponse env question (Some 0) = Some (Resolved None, initial_state question)
     \<and> calls (initial_state question) = []"
proof (intro allI conjI)
  fix env :: env and question :: string
  have "(0::int) \<le> totalTokens (initial_state question)"
    by (simp add: initial_state_def)
  from exhausted_budget_returns_undefined [OF this, of env question]
  show "getResponse env question (Some 0) = Some (Resolved None, initial_state question)"
    by (simp add: getResponse_def)
  show "calls (initial_state question) = []"
    by (simp add: initial_state_def)
qed

text \<open>
  C3, as the code has it. The evaluator is called outside the \<^verbatim>\<open>try\<close> block. When it throws
  while an answer to the original question is evaluated, the pass returns no answer: the
  exception leaves the loop and the run ends rejected with it. The answer's entry stays in the
  context log and the bad-attempt log is not touched.
\<close>

theorem evaluator_failure_ends_run:
  assumes "totalTokens st < tokenBudget"
    and "oracle_call env question st = Inr resp" and "parsed resp = Inr act"
    and "action act = ''answer''" and "currentQuestion question st = question"
    and "evaluateAnswer env (Suc (length (calls st))) question (answer act) = Inl e"
  shows "\<exists>st'. loop_body env question st = Throw e st'
      \<and> getResponse_loop env question tokenBudget st = Some (Rejected e, st')
      \<and> badContext st' = badContext st
      \<and> context_log st' = context_log st @
           [\<lparr>entry_step = Suc (step st), entry_question = question, entry_action = act,
             entry_result = None\<rparr>]"
proof -
  obtain st' where body: "loop_body env question st = Throw e st'"
    and bad: "badContext st' = badContext st"
    and ctx: "context_log st' = context_log st @
           [\<lparr>entry_step = Suc (step st), entry_question = question, entry_action = act,
             entry_result = None\<rparr>]"
    unfolding loop_body_decided [OF assms(2,3)] assms(5) dispatch_answer_original [OF assms(4)]
    using assms(6) by simp
  from loop_throw [OF assms(1) body] body bad ctx show ?thesis
    by blast
qed

theorem evaluator_failure_ends_run_witness:
  "\<exists>st'. getResponse_loop (scripted_env (\<lambda>n. unreferenced_answer)
              (Inl (Thrown ''evaluator unavailable'')) no_reader) ''1+1='' 100
            (initial_state ''1+1='')
          = Some (Rejected (Thrown ''evaluator unavailable''), st')
     \<and> badContext st' = []"
proof -
  let ?env = "scripted_env (\<lambda>n. unreferenced_answer) (Inl (Thrown ''evaluator unavailable''))
                no_reader"
  have budget: "totalTokens (initial_state ''1+1='') < 100"
    by (simp add: initial_state_def)
  have call: "oracle_call ?env ''1+1='' (initial_state ''1+1='')
      = Inr \<lparr>totalTokenCount = Some 10, parsed = Inr unreferenced_answer\<rparr>"
    by (simp add: oracle_call_def)
  have cur: "currentQuestion ''1+1='' (initial_state ''1+1='') = ''1+1=''"
    by (simp add: currentQuestion_def initial_state_def)
  have failure: "evaluateAnswer ?env (Suc (length (calls (initial_state ''1+1='')))) ''1+1=''
      (answer unreferenced_answer) = Inl (Thrown ''evaluator unavailable'')"
    by simp
  from evaluator_failure_ends_run [OF budget call _ unreferenced_answer_fields(1) cur failure]
  obtain st' where "getResponse_loop ?env ''1+1='' 100 (initial_state ''1+1='')
      = Some (Rejected (Thrown ''evaluator unavailable''), st')"
    and "badContext st' = badContext (initial_state ''1+1='')"
    by auto
  then show ?thesis
    by (auto simp: initial_state_def)
qed

text \<open>
  C3 as stated fails: the evaluator's failure is not treated as a rejection. The attempt is
  not stored as bad context and the loop does not go on; the run is rejected.
\<close>

theorem evaluator_failure_is_not_a_rejection:
  "loop_body (scripted_env (\<lambda>n. unreferenced_answer) (Inl (Thrown ''evaluator unavailable''))
      no_reader) ''1+1='' (initial_state ''1+1='') =
   Throw (Thrown ''evaluator unavailable'')
     \<lparr>totalTokens = 10,
      context_log = [\<lparr>entry_step = Suc 0, entry_question = ''1+1='',
                       entry_action = unreferenced_answer, entry_result = None\<rparr>],
      step = Suc 0, gaps = [], allQuestions = [''1+1=''], allKeywords = [], badContext = [],
      calls = [GenerateContent
                 (oracle_prompt (scripted_env (\<lambda>n. unreferenced_answer)
                    (Inl (Thrown ''evaluator unavailable'')) no_reader) ''1+1=''
                    (initial_state ''1+1=''))
                 (getSchema True),
               EvaluateAnswer ''1+1='' (Some ''2'')]\<rparr>
   \<and> map_option fst (getResponse (scripted_env (\<lambda>n. unreferenced_answer)
        (Inl (Thrown ''evaluator unavailable'')) no_reader) ''1+1='' None)
      = Some (Rejected (Thrown ''evaluator unavailable''))"
proof -
  let ?env = "scripted_env (\<lambda>n. unreferenced_answer) (Inl (Thrown ''evaluator unavailable''))
                no_reader"
  let ?st = "\<lparr>totalTokens = 10,
      context_log = [\<lparr>entry_step = Suc 0, entry_question = ''1+1='',
                       entry_action = unreferenced_answer, entry_result = None\<rparr>],
      step = Suc 0, gaps = [], allQuestions = [''1+1=''], allKeywords = [], badContext = [],
      calls = [GenerateContent (oracle_prompt ?env ''1+1='' (initial_state ''1+1=''))
                 (getSchema True),
               EvaluateAnswer ''1+1='' (Some ''2'')]\<rparr>"
  have body: "loop_body ?env ''1+1='' (initial_state ''1+1='')
      = Throw (Thrown ''evaluator unavailable'') ?st"
    unfolding answer_pass dispatch_answer_original [OF unreferenced_answer_fields(1)]
    by (simp add: unreferenced_answer_fields)
  have budget: "totalTokens (initial_state ''1+1='') < 30000000"
    by (simp add: initial_state_def)
  from loop_throw [OF budget body] body show ?thesis
    by (simp add: getResponse_def)
qed

text \<open>
  C4. The specification asks that the model's prompt carries the bad-attempt log.
  \<^verbatim>\<open>getPrompt\<close> has a parameter for it, but line 244 does not pass it. Whatever the
  bad-attempt log holds, the call to the model is the same: the model is called with the
  prompt that \<^verbatim>\<open>getPrompt\<close> builds without a bad-attempt log, that request is the one
  recorded for the pass, and the part of the prompt that would show the log is empty.
\<close>

theorem bad_attempts_never_reach_the_model:
  "oracle_call env question (st\<lparr>badContext := bad\<rparr>) = oracle_call env question st
   \<and> oracle_call env question st =
       generateContent env (length (calls st))
         (getPrompt (stringify env) (currentQuestion question st) (Some (context_log st))
            (Some (allQuestions st)) (allowReflect st) None)
         (getSchema (allowReflect st))
   \<and> (\<exists>rest. calls (outcome_state (loop_body env question (st\<lparr>badContext := bad\<rparr>)))
       = calls st @ GenerateContent (oracle_prompt env question st)
                      (getSchema (allowReflect st)) # rest)
   \<and> oracle_prompt env question st =
       getPrompt (stringify env) (currentQuestion question st) (Some (context_log st))
         (Some (allQuestions st)) (allowReflect st) None
   \<and> badContextIntro (stringify env) None = []"
proof (intro conjI)
  have same: "oracle_prompt env question (st\<lparr>badContext := bad\<rparr>) = oracle_prompt env question st"
    "allowReflect (st\<lparr>badContext := bad\<rparr>) = allowReflect st"
    by (simp_all add: oracle_prompt_def allowReflect_def currentQuestion_def)
  show "oracle_call env question (st\<lparr>badContext := bad\<rparr>) = oracle_call env question st"
    by (simp add: oracle_call_def same)
  show "oracle_call env question st =
       generateContent env (length (calls st))
         (getPrompt (stringify env) (currentQuestion question st) (Some (context_log st))
            (Some (allQuestions st)) (allowReflect st) None)
         (getSchema (allowReflect st))"
    by (simp add: oracle_call_def oracle_prompt_def)
  from loop_body_calls [of env question "st\<lparr>badContext := bad\<rparr>"]
  show "\<exists>rest. calls (outcome_state (loop_body env question (st\<lparr>badContext := bad\<rparr>)))
       = calls st @ GenerateContent (oracle_prompt env question st)
                      (getSchema (allowReflect st)) # rest"
    by (simp add: same)
  show "oracle_prompt env question st =
       getPrompt (stringify env) (currentQuestion question st) (Some (context_log st))
         (Some (allQuestions st)) (allowReflect st) None"
    by (simp add: oracle_prompt_def)
  show "badContextIntro (stringify env) None = []"
    by (simp add: badContextIntro_def)
qed

text \<open>
  C5, as the code has it. When the evaluator rejects an answer to the original question, the
  context log, with the rejected answer's entry last, is appended to the bad-attempt log and
  the context log is emptied. The gap queue is left as the pop left it: the original question
  is not re-enqueued. The next selection takes the head of what is left of the queue, and
  falls back to the original question when nothing is left.
\<close>

theorem rejected_answer_moves_context:
  assumes "oracle_call env question st = Inr resp" and "parsed resp = Inr act"
    and "action act = ''answer''" and "currentQuestion question st = question"
    and "evaluateAnswer env (Suc (length (calls st))) question (answer act) = Inr False"
  shows "\<exists>st'. loop_body env question st = Continue st'
      \<and> badContext st' = badContext st @ context_log st @
           [\<lparr>entry_step = Suc (step st), entry_question = question, entry_action = act,
             entry_result = None\<rparr>]
      \<and> context_log st' = []
      \<and> gaps st' = tl (gaps st)
      \<and> currentQuestion question st' = (case tl (gaps st) of [] \<Rightarrow> question | g # rest \<Rightarrow> g)"
  unfolding loop_body_decided [OF assms(1,2)] assms(4) dispatch_answer_original [OF assms(3)]
  using assms(5) by (simp add: currentQuestion_def)

theorem rejected_answer_moves_context_witness:
  "\<exists>st'. loop_body (scripted_env (\<lambda>n. unreferenced_answer) (Inr False) no_reader) ''1+1=''
            (initial_state ''1+1='') = Continue st'
     \<and> badContext st' =
          [\<lparr>entry_step = Suc 0, entry_question = ''1+1='', entry_action = unreferenced_answer,
            entry_result = None\<rparr>]
     \<and> context_log st' = []
     \<and> gaps st' = []
     \<and> currentQuestion ''1+1='' st' = ''1+1=''"
proof -
  let ?env = "scripted_env (\<lambda>n. unreferenced_answer) (Inr False) no_reader"
  have call: "oracle_call ?env ''1+1='' (initial_state ''1+1='')
      = Inr \<lparr>totalTokenCount = Some 10, parsed = Inr unreferenced_answer\<rparr>"
    by (simp add: oracle_call_def)
  have cur: "currentQuestion ''1+1='' (initial_state ''1+1='') = ''1+1=''"
    by (simp add: currentQuestion_def initial_state_def)
  have verdict: "evaluateAnswer ?env (Suc (length (calls (initial_state ''1+1='')))) ''1+1=''
      (answer unreferenced_answer) = Inr False"
    by simp
  from rejected_answer_moves_context [OF call _ unreferenced_answer_fields(1) cur verdict]
  show ?thesis
    by (simp add: initial_state_def)
qed

text \<open>
  C5 as stated fails: after the first answer to \<^verbatim>\<open>1+1=\<close> is rejected, the gap queue is
  empty, so the original question has not been re-enqueued.
\<close>

theorem rejected_answer_leaves_queue_empty:
  "loop_body (scripted_env (\<lambda>n. unreferenced_answer) (Inr False) no_reader) ''1+1=''
     (initial_state ''1+1='') =
   Continue
     \<lparr>totalTokens = 10, context_log = [], step = Suc 0, gaps = [],
      allQuestions = [''1+1=''], allKeywords = [],
      badContext = [\<lparr>entry_step = Suc 0, entry_question = ''1+1='',
                      entry_action = unreferenced_answer, entry_result = None\<rparr>],
      calls = [GenerateContent
                 (oracle_prompt (scripted_env (\<lambda>n. unreferenced_answer) (Inr False) no_reader)
                    ''1+1='' (initial_state ''1+1=''))
                 (getSchema True),
               EvaluateAnswer ''1+1='' (Some ''2'')]\<rparr>
   \<and> ''1+1='' \<notin> set (gaps (outcome_state
        (loop_body (scripted_env (\<lambda>n. unreferenced_answer) (Inr False) no_reader) ''1+1=''
           (initial_state ''1+1=''))))"
  unfolding answer_pass dispatch_answer_original [OF unreferenced_answer_fields(1)]
  by (simp add: unreferenced_answer_fields)

text \<open>
  C6, as the code has it. A run starts with the original question alone in the gap queue.
  At the head of every pass the gap queue is empty or ends with the original question. From
  the selection to the end of the pass, the selected question is the original one (always so
  when the queue was empty: line 243 falls back to it) or the original one is in the queue.
\<close>

theorem original_question_stays_live:
  assumes "passes env question tokenBudget n (initial_state question) = Some st"
  shows "gaps (initial_state question) = [question]
    \<and> (gaps st = [] \<or> last (gaps st) = question)
    \<and> (currentQuestion question st = question
        \<or> (question \<in> set (tl (gaps st))
            \<and> question \<in> set (gaps (outcome_state (loop_body env question st)))))"
proof -
  have start: "gaps (initial_state question) = [question]"
    by (simp add: initial_state_def)
  have inv: "gaps st = [] \<or> last (gaps st) = question"
    by (rule gaps_end_with_question [OF assms])
  from loop_body_gaps [of env question st] obtain xs
    where xs: "gaps (outcome_state (loop_body env question st)) = tl (gaps st) @ xs" by blast
  have "currentQuestion question st = question \<or> question \<in> set (tl (gaps st))"
  proof (cases "gaps st")
    case Nil
    then show ?thesis by (simp add: currentQuestion_def)
  next
    case (Cons g rest)
    show ?thesis
    proof (cases rest)
      case Nil
      with Cons inv show ?thesis by (simp add: currentQuestion_def)
    next
      case (Cons g' rest')
      with \<open>gaps st = g # rest\<close> inv have "last rest = question" "rest \<noteq> []" by auto
      then have "question \<in> set rest" using last_in_set by metis
      with \<open>gaps st = g # rest\<close> show ?thesis by simp
    qed
  qed
  with start inv xs show ?thesis by auto
qed

theorem original_question_stays_live_witness:
  "\<exists>st. passes (scripted_env (\<lambda>n. two_questions) (Inr False) no_reader) ''q'' 100 (Suc 0)
          (initial_state ''q'') = Some st
     \<and> gaps st = [''Q1'', ''Q2'', ''q'']
     \<and> (currentQuestion ''q'' st = ''q''
        \<or> (''q'' \<in> set (tl (gaps st))
            \<and> ''q'' \<in> set (gaps (outcome_state
                 (loop_body (scripted_env (\<lambda>n. two_questions) (Inr False) no_reader) ''q'' st)))))"
proof -
  let ?env = "scripted_env (\<lambda>n. two_questions) (Inr False) no_reader"
  have budget: "totalTokens (initial_state ''q'') < 100"
    by (simp add: initial_state_def)
  obtain st where run: "passes ?env ''q'' 100 (Suc 0) (initial_state ''q'') = Some st"
    and g: "gaps st = [''Q1'', ''Q2'', ''q'']"
    by (simp add: reflect_pass budget)
  from original_question_stays_live [OF run] g run show ?thesis
    by blast
qed

text \<open>
  C6 as stated fails at the head of the loop: after a first pass whose answer is rejected the
  loop is still running, the gap queue is empty, and no question is selected before line 243
  runs again. The original question is then neither in the queue nor selected.
\<close>

theorem loop_head_with_empty_queue:
  "passes (scripted_env (\<lambda>n. unreferenced_answer) (Inr False) no_reader) ''1+1='' 100 (Suc 0)
     (initial_state ''1+1='')
   = Some (outcome_state
       (loop_body (scripted_env (\<lambda>n. unreferenced_answer) (Inr False) no_reader) ''1+1=''
          (initial_state ''1+1='')))
   \<and> totalTokens (outcome_state
       (loop_body (scripted_env (\<lambda>n. unreferenced_answer) (Inr False) no_reader) ''1+1=''
          (initial_state ''1+1=''))) < 100
   \<and> gaps (outcome_state
       (loop_body (scripted_env (\<lambda>n. unreferenced_answer) (Inr False) no_reader) ''1+1=''
          (initial_state ''1+1=''))) = []
   \<and> ''1+1='' \<notin> set (gaps (outcome_state
       (loop_body (scripted_env (\<lambda>n. unreferenced_answer) (Inr False) no_reader) ''1+1=''
          (initial_state ''1+1=''))))"
proof -
  let ?env = "scripted_env (\<lambda>n. unreferenced_answer) (Inr False) no_reader"
  have budget: "totalTokens (initial_state ''1+1='') < 100"
    by (simp add: initial_state_def)
  obtain st' where body: "loop_body ?env ''1+1='' (initial_state ''1+1='') = Continue st'"
    and rest: "gaps st' = []" "totalTokens st' = 10"
    unfolding answer_pass dispatch_answer_original [OF unreferenced_answer_fields(1)]
    by (simp add: unreferenced_answer_fields)
  from budget body have "passes ?env ''1+1='' 100 (Suc 0) (initial_state ''1+1='') = Some st'"
    by simp
  with body rest show ?thesis
    by simp
qed



text \<open>
  C8. In any state of a run, when the model returns a reflect action carrying questions, the
  questions are handed to the deduplicator together with all questions asked so far; what
  the deduplicator returns is appended, in that order, to the gap queue and to the question
  registry, and the original question is appended to the gap queue after them.
\<close>

theorem reflect_enqueues_novel_questions:
  assumes "passes env question tokenBudget n (initial_state question) = Some st"
    and "oracle_call env question st = Inr resp" and "parsed resp = Inr act"
    and "action act = ''reflect''" and "questionsToAnswer act = Some qs"
    and "dedupQueries env (Suc (length (calls st))) qs (allQuestions st) = Inr novel"
  shows "\<exists>st'. loop_body env question st = Continue st'
      \<and> calls st' = calls st @
           [GenerateContent (oracle_prompt env question st) (getSchema (allowReflect st)),
            DedupQueries qs (allQuestions st)]
      \<and> gaps st' = tl (gaps st) @ novel @ [question]
      \<and> allQuestions st' = allQuestions st @ novel"
proof -
  have known: "allQuestions st \<noteq> []"
    by (rule allQuestions_nonempty [OF assms(1)])
  have other: "action act \<noteq> ''answer''" "action act \<noteq> ''search''" "action act \<noteq> ''deep dive''"
    using assms(4) by simp_all
  show ?thesis
    unfolding loop_body_decided [OF assms(2,3)] dispatch_other [OF other]
    using assms(4,5,6) known
    by (simp add: handle_reflect_def record_call_def)
qed

theorem reflect_enqueues_novel_questions_witness:
  "\<exists>st'. loop_body (scripted_env (\<lambda>n. two_questions) (Inr True) no_reader) ''q''
            (initial_state ''q'') = Continue st'
      \<and> gaps st' = tl (gaps (initial_state ''q'')) @ [''Q1'', ''Q2''] @ [''q'']
      \<and> allQuestions st' = allQuestions (initial_state ''q'') @ [''Q1'', ''Q2'']"
proof -
  let ?env = "scripted_env (\<lambda>n. two_questions) (Inr True) no_reader"
  have start: "passes ?env ''q'' 100 0 (initial_state ''q'') = Some (initial_state ''q'')"
    by simp
  have call: "oracle_call ?env ''q'' (initial_state ''q'')
      = Inr \<lparr>totalTokenCount = Some 10, parsed = Inr two_questions\<rparr>"
    by (simp add: oracle_call_def)
  have dedup: "dedupQueries ?env (Suc (length (calls (initial_state ''q''))))
      [''Q1'', ''Q2''] (allQuestions (initial_state ''q'')) = Inr [''Q1'', ''Q2'']"
    by (simp add: initial_state_def)
  from reflect_enqueues_novel_questions [OF start call _ _ _ dedup, of two_questions]
  show ?thesis
    by (simp add: two_questions_def) blast
qed

text \<open>
  C9, as the code has it. Every URL of a deep dive is requested, but \<^verbatim>\<open>Promise.all\<close> rejects
  when one read fails, and the \<^verbatim>\<open>catch\<close> block only logs: the pass then records no context
  entry at all and adds no reader tokens, and the loop goes on.
\<close>

theorem failed_fetch_drops_the_batch:
  assumes "oracle_call env question st = Inr resp" and "parsed resp = Inr act"
    and "action act = ''deep dive''" and "URLTargets act = Some urls"
    and "i < length urls"
    and "readUrl env (Suc (length (calls st)) + i) (urls ! i) (jinaToken env) = Inl e"
  shows "\<exists>st'. loop_body env question st = Continue st'
      \<and> context_log st' = context_log st
      \<and> totalTokens st' = totalTokens st
           + (case totalTokenCount resp of None \<Rightarrow> 0 | Some n \<Rightarrow> n)
      \<and> calls st' = calls st @
           GenerateContent (oracle_prompt env question st) (getSchema (allowReflect st))
           # map (\<lambda>u. ReadUrl u (jinaToken env)) urls"
proof -
  from assms(5) have nonempty: "urls \<noteq> []" by auto
  show ?thesis
    unfolding loop_body_decided [OF assms(1,2)] dispatch_deep_dive [OF assms(3,4) nonempty]
    using assms(6)
    by (subst handle_deep_dive_failure [OF assms(5), of _ _ e]) simp_all
qed

theorem failed_fetch_drops_the_batch_witness:
  "first_url_only ''http://a.example'' = Inr \<lparr>content = ''page a'', usage_tokens = 7\<rparr>
   \<and> first_url_only ''http://b.example'' = Inl (Thrown ''fetch failed'')
   \<and> (\<exists>st'. loop_body (scripted_env (\<lambda>n. two_urls) (Inr True) first_url_only) ''q''
              (initial_state ''q'') = Continue st'
        \<and> context_log st' = []
        \<and> totalTokens st' = 10)"
proof -
  let ?env = "scripted_env (\<lambda>n. two_urls) (Inr True) first_url_only"
  have call: "oracle_call ?env ''q'' (initial_state ''q'')
      = Inr \<lparr>totalTokenCount = Some 10, parsed = Inr two_urls\<rparr>"
    by (simp add: oracle_call_def)
  have second: "Suc 0 < length [''http://a.example'', ''http://b.example'']"
    by simp
  have failure: "readUrl ?env (Suc (length (calls (initial_state ''q''))) + Suc 0)
      ([''http://a.example'', ''http://b.example''] ! Suc 0) (jinaToken ?env)
      = Inl (Thrown ''fetch failed'')"
    by (simp add: first_url_only_def)
  from failed_fetch_drops_the_batch [OF call _ two_urls_fields second failure]
  obtain st' where "loop_body ?env ''q'' (initial_state ''q'') = Continue st'"
    and "context_log st' = context_log (initial_state ''q'')"
    and "totalTokens st' = totalTokens (initial_state ''q'') + 10"
    by auto
  then show ?thesis
    by (auto simp: initial_state_def first_url_only_def)
qed

text \<open>
  C9 as stated fails: of two URLs the first is read and the second fails, and the context
  log is still empty after the pass; neither the first URL's page nor a failed sub-result is
  recorded.
\<close>

theorem failed_fetch_loses_other_results:
  "first_url_only ''http://a.example'' = Inr \<lparr>content = ''page a'', usage_tokens = 7\<rparr>
   \<and> loop_body (scripted_env (\<lambda>n. two_urls) (Inr True) first_url_only) ''q''
       (initial_state ''q'') =
     Continue
       \<lparr>totalTokens = 10, context_log = [], step = Suc 0, gaps = [],
        allQuestions = [''q''], allKeywords = [], badContext = [],
        calls = [GenerateContent
                   (oracle_prompt (scripted_env (\<lambda>n. two_urls) (Inr True) first_url_only) ''q''
                      (initial_state ''q''))
                   (getSchema True),
                 ReadUrl ''http://a.example'' ''jina_test'',
                 ReadUrl ''http://b.example'' ''jina_test'']\<rparr>"
proof -
  let ?env = "scripted_env (\<lambda>n. two_urls) (Inr True) first_url_only"
  have call: "oracle_call ?env ''q'' (initial_state ''q'')
      = Inr \<lparr>totalTokenCount = Some 10, parsed = Inr two_urls\<rparr>"
    by (simp add: oracle_call_def)
  have dive: "dispatch ?env ''q'' cur two_urls st
      = Continue (handle_deep_dive ?env cur two_urls
          [''http://a.example'', ''http://b.example''] st)" for cur st
    by (rule dispatch_deep_dive [OF two_urls_fields]) simp
  show ?thesis
    unfolding loop_body_decided [OF call, of two_urls, simplified] dive
    by (simp add: handle_deep_dive_def record_call_def first_url_only_def initial_state_def
        allowReflect_def)
qed

text \<open>
  C10. A pass whose action is reflect leaves the context log as it was, also when the
  deduplicator throws; a pass changes the context log only when its action is answer, search
  or deep dive.
\<close>

theorem reflect_adds_no_context_entry:
  assumes "oracle_call env question st = Inr resp" and "parsed resp = Inr act"
  shows "(action act = ''reflect'' \<longrightarrow>
            context_log (outcome_state (loop_body env question st)) = context_log st)
       \<and> (context_log (outcome_state (loop_body env question st)) \<noteq> context_log st \<longrightarrow>
            action act \<in> {''answer'', ''search'', ''deep dive''})"
proof -
  have unchanged: "context_log (outcome_state (loop_body env question st)) = context_log st"
    if other: "action act \<noteq> ''answer''" "action act \<noteq> ''search''" "action act \<noteq> ''deep dive''"
    unfolding loop_body_decided [OF assms] dispatch_other [OF other]
    by (simp add: handle_reflect_frame)
  show ?thesis
  proof (intro conjI impI)
    assume "action act = ''reflect''"
    then show "context_log (outcome_state (loop_body env question st)) = context_log st"
      by (intro unchanged) simp_all
  next
    assume "context_log (outcome_state (loop_body env question st)) \<noteq> context_log st"
    with unchanged show "action act \<in> {''answer'', ''search'', ''deep dive''}"
      by blast
  qed
qed

theorem reflect_adds_no_context_entry_witness:
  "action two_questions = ''reflect''
   \<and> context_log (outcome_state
        (loop_body (scripted_env (\<lambda>n. two_questions) (Inr False) no_reader) ''q''
           (initial_state ''q'')))
      = context_log (initial_state ''q'')
   \<and> context_log (outcome_state
        (loop_body (scripted_env (\<lambda>n. unreferenced_answer) (Inr True) no_reader) ''1+1=''
           (initial_state ''1+1='')))
      \<noteq> context_log (initial_state ''1+1='')
   \<and> action unreferenced_answer \<in> {''answer'', ''search'', ''deep dive''}"
proof -
  let ?env = "scripted_env (\<lambda>n. two_questions) (Inr False) no_reader"
  let ?env' = "scripted_env (\<lambda>n. unreferenced_answer) (Inr True) no_reader"
  have call: "oracle_call ?env ''q'' (initial_state ''q'')
      = Inr \<lparr>totalTokenCount = Some 10, parsed = Inr two_questions\<rparr>"
    by (simp add: oracle_call_def)
  have tag: "action two_questions = ''reflect''"
    by (simp add: two_questions_def)
  have call': "oracle_call ?env' ''1+1='' (initial_state ''1+1='')
      = Inr \<lparr>totalTokenCount = Some 10, parsed = Inr unreferenced_answer\<rparr>"
    by (simp add: oracle_call_def)
  have changed: "context_log (outcome_state (loop_body ?env' ''1+1='' (initial_state ''1+1='')))
      \<noteq> context_log (initial_state ''1+1='')"
    unfolding answer_pass dispatch_answer_original [OF unreferenced_answer_fields(1)]
    by (simp add: initial_state_def)
  from reflect_adds_no_context_entry [OF call, of two_questions] tag
  have "context_log (outcome_state (loop_body ?env ''q'' (initial_state ''q'')))
      = context_log (initial_state ''q'')"
    by simp
  moreover from reflect_adds_no_context_entry [OF call', of unreferenced_answer] changed
  have "action unreferenced_answer \<in> {''answer'', ''search'', ''deep dive''}"
    by simp
  ultimately show ?thesis
    using tag changed by blast
qed

end
